theory Spec2Isabelle
  imports Complex_Main
begin

section \<open>Data model of the close-to-junction story teller\<close>

text \<open>
  The embedding follows \<^verbatim>\<open>modules/storytelling/story_tellers/close_to_junction_teller.cc\<close>.
  A C++ \<^verbatim>\<open>double\<close> is modelled by a real number: only finite values are covered and the
  rounding of the single subtraction \<^verbatim>\<open>path_point.s() - s_start\<close> is abstracted.
  A \<^verbatim>\<open>std::string\<close> is a \<open>string\<close>, a \<^verbatim>\<open>std::vector\<close> or repeated protobuf field a list,
  a \<^verbatim>\<open>shared_ptr\<close> that may be null an \<open>option\<close>.
\<close>

record PointENU =
  enu_x :: real
  enu_y :: real

record PathPoint =
  pp_x :: real
  pp_y :: real
  pp_s :: real

record TrajectoryPoint =
  path_point :: PathPoint

record ADCTrajectory =
  trajectory_point :: "TrajectoryPoint list"

text \<open>
  Map objects: of a junction only the identifier and the polygon are read
  (\<^verbatim>\<open>id().id()\<close> and \<^verbatim>\<open>polygon().point_size()\<close>).
\<close>

record JunctionInfo =
  junction_id_of :: string
  junction_polygon :: "PointENU list"

record PNCJunctionInfo =
  pnc_junction_id_of :: string
  pnc_junction_polygon :: "PointENU list"

text \<open>
  The map service is an external collaborator. \<^verbatim>\<open>GetJunctions\<close> and \<^verbatim>\<open>GetPNCJunctions\<close> take
  a point and a radius and fill a vector of possibly null shared pointers; the model takes
  the two queries as functions returning that vector.
\<close>

record HDMap =
  GetJunctions :: "PointENU \<Rightarrow> real \<Rightarrow> JunctionInfo option list"
  GetPNCJunctions :: "PointENU \<Rightarrow> real \<Rightarrow> PNCJunctionInfo option list"

text \<open>The two gflags read by the code are configuration, taken as a parameter.\<close>

record Flags =
  FLAGS_search_radius :: real
  FLAGS_adc_trajectory_search_distance :: real

text \<open>\<^verbatim>\<open>CloseToJunction::JunctionType\<close>: the two enumerators the code assigns.\<close>

datatype JunctionType = PNC_JUNCTION | JUNCTION

text \<open>
  The story message \<^verbatim>\<open>CloseToJunction\<close> with its three optional fields: a freshly created
  message has none of them set, each \<^verbatim>\<open>set_...\<close> call sets one. \<^verbatim>\<open>Stories\<close> holds the optional
  sub-message; \<^verbatim>\<open>has_close_to_junction()\<close> tells whether it is present.
\<close>

record CloseToJunction =
  ctj_id :: "string option"
  ctj_type :: "JunctionType option"
  ctj_distance :: "real option"

record Stories =
  close_to_junction :: "CloseToJunction option"

datatype MapQuery =
  JunctionsQuery PointENU real
  | PNCJunctionsQuery PointENU real

datatype Severity = ERROR | INFO

text \<open>
  Everything that outlives one call: the function-local static
  \<^verbatim>\<open>overlapping_junction_id\<close> of \<^verbatim>\<open>GetNearestJunction\<close> (a static \<^verbatim>\<open>std::string\<close> starts empty),
  the queries sent to the map service so far, and the lines written to the log.
\<close>

record World =
  overlapping_junction_id :: string
  map_queries :: "MapQuery list"
  log_lines :: "(Severity \<times> string) list"

text \<open>
  Failures of the C++ code that have no defined result: indexing a repeated field out of
  range, and reading a local variable that was never assigned.
\<close>

datatype error = IndexOutOfRange | UninitializedRead

section \<open>The point classifiers\<close>

definition query_map :: "MapQuery \<Rightarrow> World \<Rightarrow> World" where
  "query_map q w = w\<lparr>map_queries := map_queries w @ [q]\<rparr>"

text \<open>
  \<^verbatim>\<open>IsPointInPNCJunction\<close> (lines 39-58). The out-parameter \<^verbatim>\<open>pnc_junction_id\<close> is passed in
  and returned: it is written only when the result is \<open>True\<close>.
\<close>

definition IsPointInPNCJunction ::
  "Flags \<Rightarrow> HDMap \<Rightarrow> PathPoint \<Rightarrow> string \<Rightarrow> World \<Rightarrow> bool \<times> string \<times> World" where
  "IsPointInPNCJunction fl hm point pnc_junction_id w =
     (let hdmap_point = \<lparr>enu_x = pp_x point, enu_y = pp_y point\<rparr>;
          pnc_junctions = GetPNCJunctions hm hdmap_point (FLAGS_search_radius fl);
          w1 = query_map (PNCJunctionsQuery hdmap_point (FLAGS_search_radius fl)) w
      in if pnc_junctions = [] \<or> hd pnc_junctions = None then (False, pnc_junction_id, w1)
         else
           let pnc_junction_info = hd pnc_junctions
           in if pnc_junction_info \<noteq> None \<and>
                 length (pnc_junction_polygon (the pnc_junction_info)) \<ge> 3
              then (True, pnc_junction_id_of (the pnc_junction_info), w1)
              else (False, pnc_junction_id, w1))"

text \<open>\<^verbatim>\<open>IsPointInJunction\<close> (lines 60-79), the same code over plain junctions.\<close>

definition IsPointInJunction ::
  "Flags \<Rightarrow> HDMap \<Rightarrow> PathPoint \<Rightarrow> string \<Rightarrow> World \<Rightarrow> bool \<times> string \<times> World" where
  "IsPointInJunction fl hm point junction_id w =
     (let hdmap_point = \<lparr>enu_x = pp_x point, enu_y = pp_y point\<rparr>;
          junctions = GetJunctions hm hdmap_point (FLAGS_search_radius fl);
          w1 = query_map (JunctionsQuery hdmap_point (FLAGS_search_radius fl)) w
      in if junctions = [] \<or> hd junctions = None then (False, junction_id, w1)
         else
           let junction_info = hd junctions
           in if junction_info \<noteq> None \<and>
                 length (junction_polygon (the junction_info)) \<ge> 3
              then (True, junction_id_of (the junction_info), w1)
              else (False, junction_id, w1))"

section \<open>The scanner\<close>

text \<open>The three out-parameters \<^verbatim>\<open>id\<close>, \<^verbatim>\<open>type\<close> and \<^verbatim>\<open>distance\<close> of \<^verbatim>\<open>GetNearestJunction\<close>;
  \<open>out_type\<close> is \<open>None\<close> while the caller's variable is still unassigned.\<close>

record ScanOut =
  out_id :: string
  out_type :: "JunctionType option"
  out_distance :: real

text \<open>
  The range-for loop of lines 96-125 over the remaining points. The two classifier results
  are stored in \<^verbatim>\<open>const double\<close> variables, as in the source, and tested against zero.
\<close>

fun GetNearestJunction_loop ::
  "Flags \<Rightarrow> HDMap \<Rightarrow> real \<Rightarrow> TrajectoryPoint list \<Rightarrow> ScanOut \<Rightarrow> World \<Rightarrow> ScanOut \<times> World" where
  "GetNearestJunction_loop fl hm s_start [] out w = (out, w)"
| "GetNearestJunction_loop fl hm s_start (point # rest) out w =
     (let pp = path_point point
      in if pp_s pp > FLAGS_adc_trajectory_search_distance fl then (out, w)
         else
           (case IsPointInJunction fl hm pp [] w of (in_junction, junction_id, w1) \<Rightarrow>
            case IsPointInPNCJunction fl hm pp [] w1 of (in_pnc_junction, pnc_junction_id, w2) \<Rightarrow>
              let junction = (of_bool in_junction :: real);
                  pnc_junction = (of_bool in_pnc_junction :: real)
              in if pnc_junction \<noteq> 0 then
                   (out\<lparr>out_id := pnc_junction_id,
                        out_type := Some PNC_JUNCTION,
                        out_distance := pp_s pp - s_start\<rparr>,
                    w2\<lparr>overlapping_junction_id := (if junction \<noteq> 0 then junction_id else [])\<rparr>)
                 else if junction \<noteq> 0 then
                   (if junction_id \<noteq> overlapping_junction_id w2
                    then (out\<lparr>out_id := junction_id,
                              out_type := Some JUNCTION,
                              out_distance := pp_s pp - s_start\<rparr>, w2)
                    else (out, w2))
                 else GetNearestJunction_loop fl hm s_start rest out
                        (w2\<lparr>overlapping_junction_id := []\<rparr>)))"

text \<open>
  \<^verbatim>\<open>GetNearestJunction\<close> (lines 86-126). \<open>type0\<close> is the content of the caller's \<^verbatim>\<open>type\<close>
  variable at the call. \<^verbatim>\<open>trajectory_point(0)\<close> on an empty trajectory is out of range.
\<close>

definition GetNearestJunction ::
  "Flags \<Rightarrow> HDMap \<Rightarrow> ADCTrajectory \<Rightarrow> JunctionType option \<Rightarrow> World \<Rightarrow> error + (ScanOut \<times> World)" where
  "GetNearestJunction fl hm adc_trajectory type0 w =
     (let out = \<lparr>out_id = [], out_type = type0, out_distance = - 1\<rparr>
      in case trajectory_point adc_trajectory of
           [] \<Rightarrow> Inl IndexOutOfRange
         | first # _ \<Rightarrow>
             let s_start = pp_s (path_point first)
             in Inr (GetNearestJunction_loop fl hm s_start (trajectory_point adc_trajectory) out w))"

section \<open>The controller\<close>

definition write_log :: "Severity \<Rightarrow> string \<Rightarrow> World \<Rightarrow> World" where
  "write_log sev msg w = w\<lparr>log_lines := log_lines w @ [(sev, msg)]\<rparr>"

definition has_close_to_junction :: "Stories \<Rightarrow> bool" where
  "has_close_to_junction stories = (close_to_junction stories \<noteq> None)"

text \<open>\<^verbatim>\<open>mutable_close_to_junction()\<close>: the present sub-message, or a new one with no field set.\<close>

definition mutable_close_to_junction :: "Stories \<Rightarrow> CloseToJunction" where
  "mutable_close_to_junction stories =
     (case close_to_junction stories of
        None \<Rightarrow> \<lparr>ctj_id = None, ctj_type = None, ctj_distance = None\<rparr>
      | Some story \<Rightarrow> story)"

definition clear_close_to_junction :: "Stories \<Rightarrow> Stories" where
  "clear_close_to_junction stories = stories\<lparr>close_to_junction := None\<rparr>"

text \<open>
  \<^verbatim>\<open>CloseToJunctionTeller::Update\<close> (lines 135-162). \<open>trajectory\<close> is what
  \<^verbatim>\<open>planning_reader->GetLatestObserved()\<close> returned. The local \<^verbatim>\<open>type\<close> is declared without
  an initialiser, so it enters the scan as \<open>None\<close>; passing it to \<^verbatim>\<open>set_type\<close> reads it.
\<close>

definition Update ::
  "Flags \<Rightarrow> HDMap \<Rightarrow> ADCTrajectory option \<Rightarrow> Stories \<Rightarrow> World \<Rightarrow> error + (Stories \<times> World)" where
  "Update fl hm trajectory stories w =
     (if trajectory = None \<or> trajectory_point (the trajectory) = [] then
        Inr (stories, write_log ERROR ''Planning trajectory not ready.'' w)
      else
        case GetNearestJunction fl hm (the trajectory) None w of
          Inl e \<Rightarrow> Inl e
        | Inr (out, w1) \<Rightarrow>
            let close = (out_distance out \<ge> 0)
            in if close then
                 let w2 = (if \<not> has_close_to_junction stories
                           then write_log INFO ''Enter CloseToJunction story'' w1 else w1);
                     story = mutable_close_to_junction stories
                 in (case out_type out of
                       None \<Rightarrow> Inl UninitializedRead
                     | Some t \<Rightarrow>
                         Inr (stories\<lparr>close_to_junction :=
                                Some (story\<lparr>ctj_id := Some (out_id out),
                                            ctj_type := Some t,
                                            ctj_distance := Some (out_distance out)\<rparr>)\<rparr>, w2))
               else if has_close_to_junction stories then
                 Inr (clear_close_to_junction stories,
                      write_log INFO ''Exit CloseToJunction story'' w1)
               else Inr (stories, w1))"

text \<open>
  The periodic caller: one \<^verbatim>\<open>Update\<close> per cycle, each with the trajectory snapshot observed
  in that cycle, on the stories and the process state the previous cycle left.
\<close>

fun run_cycles ::
  "Flags \<Rightarrow> HDMap \<Rightarrow> ADCTrajectory option list \<Rightarrow> Stories \<Rightarrow> World \<Rightarrow> error + (Stories \<times> World)" where
  "run_cycles fl hm [] stories w = Inr (stories, w)"
| "run_cycles fl hm (trajectory # later) stories w =
     (case Update fl hm trajectory stories w of
        Inl e \<Rightarrow> Inl e
      | Inr (stories1, w1) \<Rightarrow> run_cycles fl hm later stories1 w1)"

section \<open>Vocabulary of the statements\<close>

text \<open>The process state at start-up: the static string is empty, nothing queried or logged.\<close>

definition World_init :: World where
  "World_init = \<lparr>overlapping_junction_id = [], map_queries = [], log_lines = []\<rparr>"

text \<open>The map point built from a trajectory point (lines 41-43 and 62-64).\<close>

definition enu_of :: "TrajectoryPoint \<Rightarrow> PointENU" where
  "enu_of p = \<lparr>enu_x = pp_x (path_point p), enu_y = pp_y (path_point p)\<rparr>"

text \<open>
  The verdict of each classifier on a trajectory point, called as the scanner calls it
  (with a fresh, empty identifier string): \<open>Some i\<close> when it returns \<open>True\<close> and writes \<open>i\<close>.
\<close>

definition ClassifyPlain :: "Flags \<Rightarrow> HDMap \<Rightarrow> TrajectoryPoint \<Rightarrow> string option" where
  "ClassifyPlain fl hm p =
     (case IsPointInJunction fl hm (path_point p) [] World_init of
        (found, ident, _) \<Rightarrow> if found then Some ident else None)"

definition ClassifyPNC :: "Flags \<Rightarrow> HDMap \<Rightarrow> TrajectoryPoint \<Rightarrow> string option" where
  "ClassifyPNC fl hm p =
     (case IsPointInPNCJunction fl hm (path_point p) [] World_init of
        (found, ident, _) \<Rightarrow> if found then Some ident else None)"

definition no_match :: "Flags \<Rightarrow> HDMap \<Rightarrow> TrajectoryPoint \<Rightarrow> bool" where
  "no_match fl hm p = (ClassifyPNC fl hm p = None \<and> ClassifyPlain fl hm p = None)"

text \<open>The guard of line 98, negated: the point's own arc length is within the flag.\<close>

definition in_window :: "Flags \<Rightarrow> TrajectoryPoint \<Rightarrow> bool" where
  "in_window fl p = (pp_s (path_point p) \<le> FLAGS_adc_trajectory_search_distance fl)"

text \<open>The window as the specification words it: the offset from the first point's arc length.\<close>

definition in_offset_window :: "Flags \<Rightarrow> real \<Rightarrow> TrajectoryPoint \<Rightarrow> bool" where
  "in_offset_window fl s_start p =
     (pp_s (path_point p) - s_start \<le> FLAGS_adc_trajectory_search_distance fl)"

text \<open>The two map queries that examining a point sends, in the order of lines 103-104.\<close>

definition queries_of :: "Flags \<Rightarrow> TrajectoryPoint \<Rightarrow> MapQuery list" where
  "queries_of fl p =
     [JunctionsQuery (enu_of p) (FLAGS_search_radius fl),
      PNCJunctionsQuery (enu_of p) (FLAGS_search_radius fl)]"

text \<open>
  The points a scan should examine for a given window: those before the first point
  outside the window, up to and including the first of them that matches a junction.
\<close>

definition examined_points ::
  "(TrajectoryPoint \<Rightarrow> bool) \<Rightarrow> Flags \<Rightarrow> HDMap \<Rightarrow> TrajectoryPoint list \<Rightarrow> TrajectoryPoint list" where
  "examined_points inside fl hm ps =
     (let reach = takeWhile inside ps
      in takeWhile (no_match fl hm) reach @ take 1 (dropWhile (no_match fl hm) reach))"

text \<open>The output a scan starts from (lines 90-91): empty id, distance \<open>-1\<close>, type untouched.\<close>

definition no_junction :: "JunctionType option \<Rightarrow> ScanOut" where
  "no_junction type0 = \<lparr>out_id = [], out_type = type0, out_distance = - 1\<rparr>"

subsection \<open>A small map and some trajectories\<close>

text \<open>
  A map with a PNC junction \<open>pnc1\<close> at \<open>x = 5\<close>, a plain junction \<open>j1\<close> at \<open>x = 5\<close> and
  \<open>x = 6\<close> (so the two overlap at \<open>x = 5\<close>), and nothing elsewhere.
\<close>

definition demo_flags :: Flags where
  "demo_flags = \<lparr>FLAGS_search_radius = 1, FLAGS_adc_trajectory_search_distance = 10\<rparr>"

definition triangle :: "PointENU list" where
  "triangle = [\<lparr>enu_x = 4, enu_y = - 1\<rparr>, \<lparr>enu_x = 7, enu_y = - 1\<rparr>, \<lparr>enu_x = 5, enu_y = 2\<rparr>]"

definition demo_map :: HDMap where
  "demo_map =
     \<lparr>GetJunctions = (\<lambda>q r. if enu_x q = 5 \<or> enu_x q = 6
          then [Some \<lparr>junction_id_of = ''j1'', junction_polygon = triangle\<rparr>] else []),
      GetPNCJunctions = (\<lambda>q r. if enu_x q = 5
          then [Some \<lparr>pnc_junction_id_of = ''pnc1'', pnc_junction_polygon = triangle\<rparr>] else [])\<rparr>"

definition pt :: "real \<Rightarrow> real \<Rightarrow> TrajectoryPoint" where
  "pt px ps = \<lparr>path_point = \<lparr>pp_x = px, pp_y = 0, pp_s = ps\<rparr>\<rparr>"

definition traj :: "TrajectoryPoint list \<Rightarrow> ADCTrajectory" where
  "traj ps = \<lparr>trajectory_point = ps\<rparr>"

definition no_stories :: Stories where
  "no_stories = \<lparr>close_to_junction = None\<rparr>"

section \<open>The classifiers and one step of the scan\<close>

lemma IsPointInJunction_Classify:
  "IsPointInJunction fl hm (path_point p) jid w =
     (ClassifyPlain fl hm p \<noteq> None,
      (case ClassifyPlain fl hm p of None \<Rightarrow> jid | Some i \<Rightarrow> i),
      query_map (JunctionsQuery (enu_of p) (FLAGS_search_radius fl)) w)"
  by (simp add: IsPointInJunction_def ClassifyPlain_def enu_of_def Let_def)

lemma IsPointInPNCJunction_Classify:
  "IsPointInPNCJunction fl hm (path_point p) jid w =
     (ClassifyPNC fl hm p \<noteq> None,
      (case ClassifyPNC fl hm p of None \<Rightarrow> jid | Some i \<Rightarrow> i),
      query_map (PNCJunctionsQuery (enu_of p) (FLAGS_search_radius fl)) w)"
  by (simp add: IsPointInPNCJunction_def ClassifyPNC_def enu_of_def Let_def)

lemma loop_beyond:
  "\<not> in_window fl p \<Longrightarrow> GetNearestJunction_loop fl hm s0 (p # rest) out w = (out, w)"
  by (simp add: in_window_def Let_def)

lemma loop_pnc:
  "in_window fl p \<Longrightarrow> ClassifyPNC fl hm p = Some j \<Longrightarrow>
   GetNearestJunction_loop fl hm s0 (p # rest) out w =
     (out\<lparr>out_id := j, out_type := Some PNC_JUNCTION,
          out_distance := pp_s (path_point p) - s0\<rparr>,
      w\<lparr>overlapping_junction_id := (case ClassifyPlain fl hm p of None \<Rightarrow> [] | Some a \<Rightarrow> a),
        map_queries := map_queries w @ queries_of fl p\<rparr>)"
  by (cases w)
    (simp add: in_window_def Let_def IsPointInJunction_Classify IsPointInPNCJunction_Classify
      query_map_def queries_of_def split: option.splits)

lemma loop_plain:
  "in_window fl p \<Longrightarrow> ClassifyPNC fl hm p = None \<Longrightarrow> ClassifyPlain fl hm p = Some j \<Longrightarrow>
   GetNearestJunction_loop fl hm s0 (p # rest) out w =
     ((if j \<noteq> overlapping_junction_id w
       then out\<lparr>out_id := j, out_type := Some JUNCTION,
                out_distance := pp_s (path_point p) - s0\<rparr>
       else out),
      w\<lparr>map_queries := map_queries w @ queries_of fl p\<rparr>)"
  by (cases w)
    (simp add: in_window_def Let_def IsPointInJunction_Classify IsPointInPNCJunction_Classify
      query_map_def queries_of_def)

lemma loop_neither:
  "in_window fl p \<Longrightarrow> no_match fl hm p \<Longrightarrow>
   GetNearestJunction_loop fl hm s0 (p # rest) out w =
     GetNearestJunction_loop fl hm s0 rest out
       (w\<lparr>overlapping_junction_id := [],
          map_queries := map_queries w @ queries_of fl p\<rparr>)"
  by (cases w)
    (simp add: in_window_def no_match_def Let_def IsPointInJunction_Classify
      IsPointInPNCJunction_Classify query_map_def queries_of_def)

text \<open>A run of in-window points that match nothing only clears the static id.\<close>

lemma loop_skip:
  "\<forall>q \<in> set pre. in_window fl q \<and> no_match fl hm q \<Longrightarrow>
   GetNearestJunction_loop fl hm s0 (pre @ rest) out w =
     GetNearestJunction_loop fl hm s0 rest out
       (w\<lparr>overlapping_junction_id := (if pre = [] then overlapping_junction_id w else []),
          map_queries := map_queries w @ concat (map (queries_of fl) pre)\<rparr>)"
proof (induction pre arbitrary: w)
  case Nil
  then show ?case by simp
next
  case (Cons q pre)
  let ?w1 = "w\<lparr>overlapping_junction_id := [],
                map_queries := map_queries w @ queries_of fl q\<rparr>"
  from Cons.prems have q: "in_window fl q" "no_match fl hm q"
    and pre: "\<forall>q \<in> set pre. in_window fl q \<and> no_match fl hm q" by simp_all
  have "GetNearestJunction_loop fl hm s0 ((q # pre) @ rest) out w =
        GetNearestJunction_loop fl hm s0 (pre @ rest) out ?w1"
    using loop_neither [OF q] by simp
  also have "\<dots> = GetNearestJunction_loop fl hm s0 rest out
       (?w1\<lparr>overlapping_junction_id := (if pre = [] then overlapping_junction_id ?w1 else []),
          map_queries := map_queries ?w1 @ concat (map (queries_of fl) pre)\<rparr>)"
    by (rule Cons.IH [OF pre])
  finally show ?case by (cases w) simp
qed

section \<open>The point classifier (C9)\<close>

lemma take1_same:
  "take 1 xs = take 1 ys \<Longrightarrow> (xs = [] \<and> ys = []) \<or> (\<exists>a as bs. xs = a # as \<and> ys = a # bs)"
  by (cases xs; cases ys) simp_all

text \<open>
  Claim C9. For every point and for each junction kind, the classifier answers "not found"
  exactly when the candidate list of the map query is empty, or its first element is null,
  or the first candidate's polygon has fewer than 3 vertices; otherwise it answers
  "found" and writes the identifier of the first candidate. Candidates after the first are
  never considered: two maps whose answers agree on the first candidate get the same verdict
  and identifier.
\<close>

theorem classifier_first_candidate:
  assumes q: "q = \<lparr>enu_x = pp_x point, enu_y = pp_y point\<rparr>"
    and cands: "cands = GetJunctions hm q (FLAGS_search_radius fl)"
    and pcands: "pcands = GetPNCJunctions hm q (FLAGS_search_radius fl)"
  shows
    "(\<not> fst (IsPointInJunction fl hm point jid w) \<longleftrightarrow>
        cands = [] \<or> hd cands = None \<or> length (junction_polygon (the (hd cands))) < 3) \<and>
     (fst (IsPointInJunction fl hm point jid w) \<longrightarrow>
        fst (snd (IsPointInJunction fl hm point jid w)) = junction_id_of (the (hd cands))) \<and>
     (\<forall>hm'. take 1 (GetJunctions hm' q (FLAGS_search_radius fl)) = take 1 cands \<longrightarrow>
        fst (IsPointInJunction fl hm' point jid w) = fst (IsPointInJunction fl hm point jid w) \<and>
        fst (snd (IsPointInJunction fl hm' point jid w)) =
          fst (snd (IsPointInJunction fl hm point jid w))) \<and>
     (\<not> fst (IsPointInPNCJunction fl hm point jid w) \<longleftrightarrow>
        pcands = [] \<or> hd pcands = None \<or>
        length (pnc_junction_polygon (the (hd pcands))) < 3) \<and>
     (fst (IsPointInPNCJunction fl hm point jid w) \<longrightarrow>
        fst (snd (IsPointInPNCJunction fl hm point jid w)) =
          pnc_junction_id_of (the (hd pcands))) \<and>
     (\<forall>hm'. take 1 (GetPNCJunctions hm' q (FLAGS_search_radius fl)) = take 1 pcands \<longrightarrow>
        fst (IsPointInPNCJunction fl hm' point jid w) =
          fst (IsPointInPNCJunction fl hm point jid w) \<and>
        fst (snd (IsPointInPNCJunction fl hm' point jid w)) =
          fst (snd (IsPointInPNCJunction fl hm point jid w)))"
proof -
  let ?r = "FLAGS_search_radius fl"
  have plain_not: "\<not> fst (IsPointInJunction fl hm point jid w) \<longleftrightarrow>
        cands = [] \<or> hd cands = None \<or> length (junction_polygon (the (hd cands))) < 3"
    using q cands by (auto simp: IsPointInJunction_def Let_def)
  have plain_id: "fst (IsPointInJunction fl hm point jid w) \<longrightarrow>
        fst (snd (IsPointInJunction fl hm point jid w)) = junction_id_of (the (hd cands))"
    using q cands by (auto simp: IsPointInJunction_def Let_def)
  have plain_first: "fst (IsPointInJunction fl hm' point jid w) =
          fst (IsPointInJunction fl hm point jid w) \<and>
        fst (snd (IsPointInJunction fl hm' point jid w)) =
          fst (snd (IsPointInJunction fl hm point jid w))"
    if "take 1 (GetJunctions hm' q ?r) = take 1 cands" for hm'
    using take1_same [OF that] q cands [symmetric] by (auto simp: IsPointInJunction_def Let_def)
  have pnc_not: "\<not> fst (IsPointInPNCJunction fl hm point jid w) \<longleftrightarrow>
        pcands = [] \<or> hd pcands = None \<or>
        length (pnc_junction_polygon (the (hd pcands))) < 3"
    using q pcands by (auto simp: IsPointInPNCJunction_def Let_def)
  have pnc_id: "fst (IsPointInPNCJunction fl hm point jid w) \<longrightarrow>
        fst (snd (IsPointInPNCJunction fl hm point jid w)) =
          pnc_junction_id_of (the (hd pcands))"
    using q pcands by (auto simp: IsPointInPNCJunction_def Let_def)
  have pnc_first: "fst (IsPointInPNCJunction fl hm' point jid w) =
          fst (IsPointInPNCJunction fl hm point jid w) \<and>
        fst (snd (IsPointInPNCJunction fl hm' point jid w)) =
          fst (snd (IsPointInPNCJunction fl hm point jid w))"
    if "take 1 (GetPNCJunctions hm' q ?r) = take 1 pcands" for hm'
    using take1_same [OF that] q pcands [symmetric] by (auto simp: IsPointInPNCJunction_def Let_def)
  from plain_not plain_id plain_first pnc_not pnc_id pnc_first show ?thesis
    by blast
qed

lemma demo_plain_6:
  "GetJunctions demo_map \<lparr>enu_x = pp_x (path_point (pt 6 0)), enu_y = pp_y (path_point (pt 6 0))\<rparr>
     (FLAGS_search_radius demo_flags) = [Some \<lparr>junction_id_of = ''j1'', junction_polygon = triangle\<rparr>]"
  by (simp add: demo_map_def pt_def)

lemma demo_pnc_6:
  "GetPNCJunctions demo_map \<lparr>enu_x = pp_x (path_point (pt 6 0)), enu_y = pp_y (path_point (pt 6 0))\<rparr>
     (FLAGS_search_radius demo_flags) = []"
  by (simp add: demo_map_def pt_def)

theorem classifier_first_candidate_witness:
  "fst (IsPointInJunction demo_flags demo_map (path_point (pt 6 0)) [] World_init) \<and>
   fst (snd (IsPointInJunction demo_flags demo_map (path_point (pt 6 0)) [] World_init)) = ''j1'' \<and>
   \<not> fst (IsPointInPNCJunction demo_flags demo_map (path_point (pt 6 0)) [] World_init)"
proof -
  note c = classifier_first_candidate [OF refl refl refl,
      of demo_flags demo_map "path_point (pt 6 0)" "[]" World_init]
  have len: "\<not> length triangle < 3" by (simp add: triangle_def)
  from c have a: "fst (IsPointInJunction demo_flags demo_map (path_point (pt 6 0)) [] World_init)"
    unfolding demo_plain_6 demo_pnc_6 using len by simp
  from c a have b: "fst (snd (IsPointInJunction demo_flags demo_map (path_point (pt 6 0)) [] World_init)) = ''j1''"
    unfolding demo_plain_6 demo_pnc_6 by simp
  from c have d: "\<not> fst (IsPointInPNCJunction demo_flags demo_map (path_point (pt 6 0)) [] World_init)"
    unfolding demo_plain_6 demo_pnc_6 by simp
  from a b d show ?thesis by simp
qed

section \<open>Reaching the first matching point\<close>

lemma GetNearestJunction_nonempty:
  "trajectory_point t \<noteq> [] \<Longrightarrow>
   GetNearestJunction fl hm t type0 w =
     Inr (GetNearestJunction_loop fl hm (pp_s (path_point (hd (trajectory_point t))))
            (trajectory_point t) (no_junction type0) w)"
  by (cases "trajectory_point t")
    (simp_all add: GetNearestJunction_def no_junction_def Let_def
      del: GetNearestJunction_loop.simps)

lemma loop_reach_pnc:
  assumes pre: "\<forall>q \<in> set pre. in_window fl q \<and> no_match fl hm q"
    and p_in: "in_window fl p"
    and pnc: "ClassifyPNC fl hm p = Some j"
  shows "GetNearestJunction_loop fl hm s0 (pre @ p # post) out w =
     (out\<lparr>out_id := j, out_type := Some PNC_JUNCTION,
          out_distance := pp_s (path_point p) - s0\<rparr>,
      w\<lparr>overlapping_junction_id := (case ClassifyPlain fl hm p of None \<Rightarrow> [] | Some a \<Rightarrow> a),
        map_queries := map_queries w @ concat (map (queries_of fl) (pre @ [p]))\<rparr>)"
  unfolding loop_skip [OF pre] loop_pnc [OF p_in pnc] by (cases w) simp

lemma loop_reach_plain:
  assumes pre: "\<forall>q \<in> set pre. in_window fl q \<and> no_match fl hm q"
    and p_in: "in_window fl p"
    and pnc: "ClassifyPNC fl hm p = None"
    and plain: "ClassifyPlain fl hm p = Some j"
  shows "GetNearestJunction_loop fl hm s0 (pre @ p # post) out w =
     ((if j \<noteq> (if pre = [] then overlapping_junction_id w else [])
       then out\<lparr>out_id := j, out_type := Some JUNCTION,
                out_distance := pp_s (path_point p) - s0\<rparr>
       else out),
      w\<lparr>overlapping_junction_id := (if pre = [] then overlapping_junction_id w else []),
        map_queries := map_queries w @ concat (map (queries_of fl) (pre @ [p]))\<rparr>)"
  unfolding loop_skip [OF pre] loop_plain [OF p_in pnc plain] by (cases w) simp

text \<open>
  Claim C2. Let \<open>p\<close> be the first examined point that matches a PNC junction: every point
  before it is within the search distance and matches nothing, and \<open>p\<close> is within the search
  distance. Then, whatever the plain classifier says about \<open>p\<close>, the scan returns
  \<open>PNC_JUNCTION\<close> with the PNC junction's id and distance \<open>s p - s_start\<close>; the static id
  becomes the plain junction's id when \<open>p\<close> also matched a plain junction and becomes empty
  otherwise; and the scan stops at \<open>p\<close>: the map is queried for the points up to \<open>p\<close> and
  for none after it.
\<close>

theorem pnc_junction_takes_priority:
  assumes traj: "trajectory_point t = pre @ p # post"
    and pre: "\<forall>q \<in> set pre. in_window fl q \<and> no_match fl hm q"
    and p_in: "in_window fl p"
    and pnc: "ClassifyPNC fl hm p = Some j"
  shows "GetNearestJunction fl hm t type0 w =
     Inr (\<lparr>out_id = j, out_type = Some PNC_JUNCTION,
           out_distance = pp_s (path_point p) - pp_s (path_point (hd (trajectory_point t)))\<rparr>,
          w\<lparr>overlapping_junction_id :=
               (case ClassifyPlain fl hm p of None \<Rightarrow> [] | Some a \<Rightarrow> a),
            map_queries := map_queries w @ concat (map (queries_of fl) (pre @ [p]))\<rparr>)"
proof -
  have ne: "trajectory_point t \<noteq> []" using traj by simp
  show ?thesis
    unfolding GetNearestJunction_nonempty [OF ne]
    unfolding traj loop_reach_pnc [OF pre p_in pnc]
    by (simp add: no_junction_def)
qed

text \<open>
  Claim C3. Let \<open>p\<close> be the first examined point that matches anything, and let it match a
  plain junction \<open>j\<close> only. \<open>h\<close> is the static id at the moment \<open>p\<close> is examined: the id
  the call started with when \<open>p\<close> is the first point, and empty when earlier points were
  skipped. The scan stops at \<open>p\<close>. If \<open>j = h\<close> nothing is emitted (empty id, distance \<open>-1\<close>,
  type untouched); otherwise the scan returns \<open>JUNCTION\<close> with id \<open>j\<close> and distance
  \<open>s p - s_start\<close>. In both cases the static id is left as it was when \<open>p\<close> was examined.
\<close>

theorem plain_junction_hysteresis:
  assumes traj: "trajectory_point t = pre @ p # post"
    and pre: "\<forall>q \<in> set pre. in_window fl q \<and> no_match fl hm q"
    and p_in: "in_window fl p"
    and pnc: "ClassifyPNC fl hm p = None"
    and plain: "ClassifyPlain fl hm p = Some j"
    and h: "h = (if pre = [] then overlapping_junction_id w else [])"
  shows "GetNearestJunction fl hm t type0 w =
     Inr (if j = h then no_junction type0
          else \<lparr>out_id = j, out_type = Some JUNCTION,
                out_distance = pp_s (path_point p) - pp_s (path_point (hd (trajectory_point t)))\<rparr>,
          w\<lparr>overlapping_junction_id := h,
            map_queries := map_queries w @ concat (map (queries_of fl) (pre @ [p]))\<rparr>)"
proof -
  have ne: "trajectory_point t \<noteq> []" using traj by simp
  show ?thesis
    unfolding GetNearestJunction_nonempty [OF ne]
    unfolding traj loop_reach_plain [OF pre p_in pnc plain] h
    by (simp add: no_junction_def)
qed

subsection \<open>The small map, evaluated\<close>

lemma demo_window: "in_window demo_flags (pt px ps) = (ps \<le> 10)"
  by (simp add: in_window_def demo_flags_def pt_def)

lemma demo_pnc:
  "ClassifyPNC demo_flags demo_map (pt px ps) = (if px = 5 then Some ''pnc1'' else None)"
  by (simp add: ClassifyPNC_def IsPointInPNCJunction_def demo_map_def pt_def triangle_def Let_def)

lemma demo_plain:
  "ClassifyPlain demo_flags demo_map (pt px ps) = (if px = 5 \<or> px = 6 then Some ''j1'' else None)"
  by (simp add: ClassifyPlain_def IsPointInJunction_def demo_map_def pt_def triangle_def Let_def)

lemma demo_s: "pp_s (path_point (pt px ps)) = ps"
  by (simp add: pt_def)

lemma demo_traj: "trajectory_point (traj ps) = ps"
  by (simp add: traj_def)

theorem pnc_junction_takes_priority_witness:
  "GetNearestJunction demo_flags demo_map (traj [pt 0 0, pt 5 4]) None World_init =
     Inr (\<lparr>out_id = ''pnc1'', out_type = Some PNC_JUNCTION, out_distance = 4\<rparr>,
          World_init\<lparr>overlapping_junction_id := ''j1'',
            map_queries := queries_of demo_flags (pt 0 0) @ queries_of demo_flags (pt 5 4)\<rparr>)"
  using pnc_junction_takes_priority [of "traj [pt 0 0, pt 5 4]" "[pt 0 0]" "pt 5 4" "[]"
      demo_flags demo_map "''pnc1''" None World_init]
  by (simp add: demo_window demo_pnc demo_plain demo_s demo_traj no_match_def World_init_def)

theorem plain_junction_hysteresis_witness:
  "GetNearestJunction demo_flags demo_map (traj [pt 6 0, pt 5 1]) None
       (World_init\<lparr>overlapping_junction_id := ''j1''\<rparr>) =
     Inr (no_junction None,
          World_init\<lparr>overlapping_junction_id := ''j1'',
            map_queries := queries_of demo_flags (pt 6 0)\<rparr>) \<and>
   GetNearestJunction demo_flags demo_map (traj [pt 6 0, pt 5 1]) None World_init =
     Inr (\<lparr>out_id = ''j1'', out_type = Some JUNCTION, out_distance = 0\<rparr>,
          World_init\<lparr>map_queries := queries_of demo_flags (pt 6 0)\<rparr>)"
  using plain_junction_hysteresis [of "traj [pt 6 0, pt 5 1]" "[]" "pt 6 0" "[pt 5 1]"
      demo_flags demo_map "''j1''" "''j1''" "World_init\<lparr>overlapping_junction_id := ''j1''\<rparr>" None]
    plain_junction_hysteresis [of "traj [pt 6 0, pt 5 1]" "[]" "pt 6 0" "[pt 5 1]"
      demo_flags demo_map "''j1''" "[]" World_init None]
  by (simp add: demo_window demo_pnc demo_plain demo_s demo_traj no_match_def World_init_def)

text \<open>
  Claim C4. Whenever an examined point \<open>p\<close> (one within the search distance, reached by
  the loop) matches neither kind, the loop clears the static id and goes on with the next
  point, from any state and whatever follows. Consequently, on any trajectory where such a
  \<open>p\<close> is examined and the first match after it is a plain-only match \<open>q\<close> whose id \<open>j\<close>
  is the (non-empty) id the static variable held before the call, the match is not
  suppressed: the scan returns \<open>JUNCTION\<close> \<open>j\<close>.
\<close>

theorem no_match_clears_hysteresis:
  assumes p_in: "in_window fl p"
    and p_no: "no_match fl hm p"
  shows "GetNearestJunction_loop fl hm s0 (p # rest) out w0 =
           GetNearestJunction_loop fl hm s0 rest out
             (w0\<lparr>overlapping_junction_id := [],
                 map_queries := map_queries w0 @ queries_of fl p\<rparr>) \<and>
         (\<forall>t pre mid q post j w type0.
            trajectory_point t = pre @ p # mid @ q # post \<and>
            (\<forall>r \<in> set (pre @ mid). in_window fl r \<and> no_match fl hm r) \<and>
            in_window fl q \<and> ClassifyPNC fl hm q = None \<and> ClassifyPlain fl hm q = Some j \<and>
            overlapping_junction_id w = j \<and> j \<noteq> [] \<longrightarrow>
            GetNearestJunction fl hm t type0 w =
              Inr (\<lparr>out_id = j, out_type = Some JUNCTION,
                    out_distance =
                      pp_s (path_point q) - pp_s (path_point (hd (trajectory_point t)))\<rparr>,
                   w\<lparr>overlapping_junction_id := [],
                     map_queries := map_queries w @
                       concat (map (queries_of fl) (pre @ p # mid @ [q]))\<rparr>))"
proof (intro conjI allI impI)
  show "GetNearestJunction_loop fl hm s0 (p # rest) out w0 =
           GetNearestJunction_loop fl hm s0 rest out
             (w0\<lparr>overlapping_junction_id := [],
                 map_queries := map_queries w0 @ queries_of fl p\<rparr>)"
    by (rule loop_neither [OF p_in p_no])
next
  fix t :: ADCTrajectory and pre mid :: "TrajectoryPoint list" and q :: TrajectoryPoint
    and post :: "TrajectoryPoint list" and j :: string and w :: World
    and type0 :: "JunctionType option"
  assume a: "trajectory_point t = pre @ p # mid @ q # post \<and>
            (\<forall>r \<in> set (pre @ mid). in_window fl r \<and> no_match fl hm r) \<and>
            in_window fl q \<and> ClassifyPNC fl hm q = None \<and> ClassifyPlain fl hm q = Some j \<and>
            overlapping_junction_id w = j \<and> j \<noteq> []"
  then have traj: "trajectory_point t = pre @ p # mid @ q # post"
    and q_in: "in_window fl q"
    and pnc: "ClassifyPNC fl hm q = None" and plain: "ClassifyPlain fl hm q = Some j"
    and stored: "overlapping_junction_id w = j" "j \<noteq> []" by simp_all
  from a p_in p_no
  have skipped: "\<forall>r \<in> set (pre @ p # mid). in_window fl r \<and> no_match fl hm r" by auto
  have ne: "trajectory_point t \<noteq> []" using traj by simp
  have split: "pre @ p # mid @ q # post = (pre @ p # mid) @ q # post" by simp
  show "GetNearestJunction fl hm t type0 w =
           Inr (\<lparr>out_id = j, out_type = Some JUNCTION,
                 out_distance = pp_s (path_point q) - pp_s (path_point (hd (trajectory_point t)))\<rparr>,
                w\<lparr>overlapping_junction_id := [],
                  map_queries := map_queries w @
                    concat (map (queries_of fl) (pre @ p # mid @ [q]))\<rparr>)"
    unfolding GetNearestJunction_nonempty [OF ne]
    unfolding traj split loop_reach_plain [OF skipped q_in pnc plain]
    using stored by (simp add: no_junction_def)
qed

theorem no_match_clears_hysteresis_witness:
  "GetNearestJunction_loop demo_flags demo_map 0 [pt 0 0] (no_junction None)
       (World_init\<lparr>overlapping_junction_id := ''j1''\<rparr>) =
     (no_junction None,
      World_init\<lparr>overlapping_junction_id := [],
        map_queries := queries_of demo_flags (pt 0 0)\<rparr>) \<and>
   GetNearestJunction demo_flags demo_map (traj [pt 0 0, pt 6 2]) None
       (World_init\<lparr>overlapping_junction_id := ''j1''\<rparr>) =
     Inr (\<lparr>out_id = ''j1'', out_type = Some JUNCTION, out_distance = 2\<rparr>,
          World_init\<lparr>overlapping_junction_id := [],
            map_queries := queries_of demo_flags (pt 0 0) @ queries_of demo_flags (pt 6 2)\<rparr>)"
proof -
  let ?w = "World_init\<lparr>overlapping_junction_id := ''j1''\<rparr>"
  have p_in: "in_window demo_flags (pt 0 0)" by (simp add: demo_window)
  have p_no: "no_match demo_flags demo_map (pt 0 0)"
    by (simp add: no_match_def demo_pnc demo_plain)
  note c = no_match_clears_hysteresis [OF p_in p_no, of 0 "[]" "no_junction None" ?w]
  from c have step: "GetNearestJunction_loop demo_flags demo_map 0 [pt 0 0] (no_junction None) ?w =
      GetNearestJunction_loop demo_flags demo_map 0 [] (no_junction None)
        (?w\<lparr>overlapping_junction_id := [],
            map_queries := map_queries ?w @ queries_of demo_flags (pt 0 0)\<rparr>)"
    by (rule conjunct1)
  have first: "GetNearestJunction_loop demo_flags demo_map 0 [pt 0 0] (no_junction None) ?w =
     (no_junction None,
      World_init\<lparr>overlapping_junction_id := [],
        map_queries := queries_of demo_flags (pt 0 0)\<rparr>)"
    unfolding step by (simp add: World_init_def)
  from c have "trajectory_point (traj [pt 0 0, pt 6 2]) = [] @ pt 0 0 # [] @ pt 6 2 # [] \<and>
            (\<forall>r \<in> set ([] @ []). in_window demo_flags r \<and> no_match demo_flags demo_map r) \<and>
            in_window demo_flags (pt 6 2) \<and> ClassifyPNC demo_flags demo_map (pt 6 2) = None \<and>
            ClassifyPlain demo_flags demo_map (pt 6 2) = Some ''j1'' \<and>
            overlapping_junction_id ?w = ''j1'' \<and> ''j1'' \<noteq> [] \<longrightarrow>
            GetNearestJunction demo_flags demo_map (traj [pt 0 0, pt 6 2]) None ?w =
              Inr (\<lparr>out_id = ''j1'', out_type = Some JUNCTION,
                    out_distance = pp_s (path_point (pt 6 2)) -
                      pp_s (path_point (hd (trajectory_point (traj [pt 0 0, pt 6 2]))))\<rparr>,
                   ?w\<lparr>overlapping_junction_id := [],
                     map_queries := map_queries ?w @
                       concat (map (queries_of demo_flags) ([] @ pt 0 0 # [] @ [pt 6 2]))\<rparr>)"
    by blast
  then have second: "GetNearestJunction demo_flags demo_map (traj [pt 0 0, pt 6 2]) None ?w =
     Inr (\<lparr>out_id = ''j1'', out_type = Some JUNCTION, out_distance = 2\<rparr>,
          World_init\<lparr>overlapping_junction_id := [],
            map_queries := queries_of demo_flags (pt 0 0) @ queries_of demo_flags (pt 6 2)\<rparr>)"
    by (simp add: demo_window demo_pnc demo_plain demo_s demo_traj World_init_def)
  from first second show ?thesis by simp
qed

section \<open>The search window and the undecided scan\<close>

lemma loop_all_no_match:
  "\<forall>q \<in> set (takeWhile (in_window fl) ps). no_match fl hm q \<Longrightarrow>
   fst (GetNearestJunction_loop fl hm s0 ps out w) = out"
proof (induction ps arbitrary: w)
  case Nil
  then show ?case by simp
next
  case (Cons p ps)
  show ?case
  proof (cases "in_window fl p")
    case False
    show ?thesis unfolding loop_beyond [OF False] by simp
  next
    case True
    with Cons.prems have p: "no_match fl hm p"
      and rest: "\<forall>q \<in> set (takeWhile (in_window fl) ps). no_match fl hm q" by simp_all
    show ?thesis
      unfolding loop_neither [OF True p] by (rule Cons.IH [OF rest])
  qed
qed

lemma examined_beyond: "\<not> inside p \<Longrightarrow> examined_points inside fl hm (p # ps) = []"
  by (simp add: examined_points_def)

lemma examined_match:
  "inside p \<Longrightarrow> \<not> no_match fl hm p \<Longrightarrow> examined_points inside fl hm (p # ps) = [p]"
  by (simp add: examined_points_def)

lemma examined_no_match:
  "inside p \<Longrightarrow> no_match fl hm p \<Longrightarrow>
   examined_points inside fl hm (p # ps) = p # examined_points inside fl hm ps"
  by (simp add: examined_points_def Let_def)

lemma loop_queries:
  "map_queries (snd (GetNearestJunction_loop fl hm s0 ps out w)) =
     map_queries w @ concat (map (queries_of fl) (examined_points (in_window fl) fl hm ps))"
proof (induction ps arbitrary: w)
  case Nil
  then show ?case by (simp add: examined_points_def)
next
  case (Cons p ps)
  show ?case
  proof (cases "in_window fl p")
    case False
    show ?thesis unfolding loop_beyond [OF False] examined_beyond [of "in_window fl" p, OF False] by simp
  next
    case True
    show ?thesis
    proof (cases "ClassifyPNC fl hm p")
      case (Some j)
      then have "\<not> no_match fl hm p" by (simp add: no_match_def)
      then show ?thesis
        unfolding loop_pnc [OF True Some] examined_match [of "in_window fl" p, OF True \<open>\<not> no_match fl hm p\<close>]
        by simp
    next
      case None
      show ?thesis
      proof (cases "ClassifyPlain fl hm p")
        case (Some j)
        then have nm: "\<not> no_match fl hm p" by (simp add: no_match_def)
        show ?thesis
          unfolding loop_plain [OF True None Some] examined_match [of "in_window fl" p, OF True nm]
          by simp
      next
        case plain: None
        with None have nm: "no_match fl hm p" by (simp add: no_match_def)
        show ?thesis
          unfolding loop_neither [OF True nm] examined_no_match [of "in_window fl" p, OF True nm] Cons.IH
          by simp
      qed
    qed
  qed
qed

text \<open>
  Claim C5. When the loop ends without a decisive point, either because no examined point
  matched a junction of either kind, or because the only decisive point was a plain-only
  match suppressed by the static id, the scan reports "no junction found": distance
  \<open>-1\<close> and the empty id (and it leaves the caller's type variable as it was).
\<close>

theorem no_decisive_point_no_junction:
  assumes ne: "trajectory_point t \<noteq> []"
    and none_or_suppressed:
      "(\<forall>q \<in> set (takeWhile (in_window fl) (trajectory_point t)). no_match fl hm q) \<or>
       (\<exists>pre p post j. trajectory_point t = pre @ p # post \<and>
          (\<forall>q \<in> set pre. in_window fl q \<and> no_match fl hm q) \<and> in_window fl p \<and>
          ClassifyPNC fl hm p = None \<and> ClassifyPlain fl hm p = Some j \<and>
          j = (if pre = [] then overlapping_junction_id w else []))"
  shows "\<exists>out w'. GetNearestJunction fl hm t type0 w = Inr (out, w') \<and>
           out_distance out = - 1 \<and> out_id out = [] \<and> out_type out = type0"
proof -
  let ?s0 = "pp_s (path_point (hd (trajectory_point t)))"
  let ?res = "GetNearestJunction_loop fl hm ?s0 (trajectory_point t) (no_junction type0) w"
  have "fst ?res = no_junction type0"
    using none_or_suppressed
  proof
    assume "\<forall>q \<in> set (takeWhile (in_window fl) (trajectory_point t)). no_match fl hm q"
    then show ?thesis by (rule loop_all_no_match)
  next
    assume "\<exists>pre p post j. trajectory_point t = pre @ p # post \<and>
          (\<forall>q \<in> set pre. in_window fl q \<and> no_match fl hm q) \<and> in_window fl p \<and>
          ClassifyPNC fl hm p = None \<and> ClassifyPlain fl hm p = Some j \<and>
          j = (if pre = [] then overlapping_junction_id w else [])"
    then obtain pre p post j where traj: "trajectory_point t = pre @ p # post"
      and pre: "\<forall>q \<in> set pre. in_window fl q \<and> no_match fl hm q"
      and p_in: "in_window fl p"
      and pnc: "ClassifyPNC fl hm p = None" and plain: "ClassifyPlain fl hm p = Some j"
      and j: "j = (if pre = [] then overlapping_junction_id w else [])"
      by blast
    show ?thesis
      unfolding traj loop_reach_plain [OF pre p_in pnc plain] using j by simp
  qed
  then have "GetNearestJunction fl hm t type0 w = Inr (no_junction type0, snd ?res)"
    unfolding GetNearestJunction_nonempty [OF ne] by (simp add: prod_eq_iff)
  then show ?thesis by (simp add: no_junction_def)
qed

theorem no_decisive_point_no_junction_witness:
  "\<exists>w'. GetNearestJunction demo_flags demo_map (traj [pt 0 0, pt 1 1]) None World_init =
     Inr (\<lparr>out_id = [], out_type = None, out_distance = - 1\<rparr>, w')"
proof -
  have ne: "trajectory_point (traj [pt 0 0, pt 1 1]) \<noteq> []" by (simp add: demo_traj)
  have hyp: "\<forall>q \<in> set (takeWhile (in_window demo_flags) (trajectory_point (traj [pt 0 0, pt 1 1]))).
      no_match demo_flags demo_map q"
    by (simp add: demo_traj demo_window demo_pnc demo_plain no_match_def)
  from no_decisive_point_no_junction [OF ne disjI1, OF hyp, of None World_init]
  obtain out w' where r: "GetNearestJunction demo_flags demo_map (traj [pt 0 0, pt 1 1]) None World_init
      = Inr (out, w')"
    and o: "out_distance out = - 1" "out_id out = []" "out_type out = None" by blast
  from o have "out = \<lparr>out_id = [], out_type = None, out_distance = - 1\<rparr>" by (cases out) simp
  with r show ?thesis by blast
qed

text \<open>
  Claim C1, as amended. The window is tested on the point's own arc length \<open>s\<close>, not on
  the offset \<open>s - s_start\<close>: the scan queries the map for exactly the points before the
  first one whose \<open>s\<close> strictly exceeds the flag (a point with \<open>s\<close> equal to the flag is
  examined), up to and including the first of them that matches a junction; and when none
  of the points before that first excess matches, the result is "no junction found".
\<close>

theorem scan_window_is_own_arc_length:
  assumes ne: "trajectory_point t \<noteq> []"
  shows "\<exists>out w'. GetNearestJunction fl hm t type0 w = Inr (out, w') \<and>
           map_queries w' = map_queries w @
             concat (map (queries_of fl)
               (examined_points (in_window fl) fl hm (trajectory_point t))) \<and>
           ((\<forall>q \<in> set (takeWhile (in_window fl) (trajectory_point t)). no_match fl hm q) \<longrightarrow>
              out = no_junction type0)"
proof -
  let ?s0 = "pp_s (path_point (hd (trajectory_point t)))"
  let ?res = "GetNearestJunction_loop fl hm ?s0 (trajectory_point t) (no_junction type0) w"
  have "GetNearestJunction fl hm t type0 w = Inr (fst ?res, snd ?res)"
    unfolding GetNearestJunction_nonempty [OF ne] by simp
  moreover have "map_queries (snd ?res) = map_queries w @
             concat (map (queries_of fl)
               (examined_points (in_window fl) fl hm (trajectory_point t)))"
    by (rule loop_queries)
  moreover have "(\<forall>q \<in> set (takeWhile (in_window fl) (trajectory_point t)). no_match fl hm q) \<longrightarrow>
              fst ?res = no_junction type0"
    using loop_all_no_match by blast
  ultimately show ?thesis by blast
qed

text \<open>
  The claim C1 as stated, with the window on the offset \<open>s - s_start\<close>, fails: with search
  distance 10, the single trajectory point at \<open>s = 20\<close> has offset 0 and lies in the PNC
  junction, so it would be examined; the code stops before it, sends no map query (the
  queries sent are not those of the points the stated window selects) and reports
  "no junction found".
\<close>

theorem offset_window_counterexample:
  "in_offset_window demo_flags (pp_s (path_point (pt 5 20))) (pt 5 20) \<and>
   examined_points (in_offset_window demo_flags (pp_s (path_point (pt 5 20))))
     demo_flags demo_map [pt 5 20] = [pt 5 20] \<and>
   ClassifyPNC demo_flags demo_map (pt 5 20) = Some ''pnc1'' \<and>
   GetNearestJunction demo_flags demo_map (traj [pt 5 20]) None World_init =
     Inr (no_junction None, World_init) \<and>
   map_queries World_init \<noteq>
     map_queries World_init @
       concat (map (queries_of demo_flags)
         (examined_points (in_offset_window demo_flags (pp_s (path_point (pt 5 20))))
            demo_flags demo_map [pt 5 20]))"
proof -
  have inside: "in_offset_window demo_flags (pp_s (path_point (pt 5 20))) (pt 5 20)"
    by (simp add: in_offset_window_def demo_flags_def)
  have pnc: "ClassifyPNC demo_flags demo_map (pt 5 20) = Some ''pnc1''"
    by (simp add: demo_pnc)
  then have "\<not> no_match demo_flags demo_map (pt 5 20)" by (simp add: no_match_def)
  with inside have examined: "examined_points (in_offset_window demo_flags (pp_s (path_point (pt 5 20))))
     demo_flags demo_map [pt 5 20] = [pt 5 20]"
    by (rule examined_match)
  have "\<not> in_window demo_flags (pt 5 20)" by (simp add: demo_window)
  then have "GetNearestJunction demo_flags demo_map (traj [pt 5 20]) None World_init =
     Inr (no_junction None, World_init)"
    by (simp add: GetNearestJunction_nonempty demo_traj loop_beyond
        del: GetNearestJunction_loop.simps)
  moreover have "map_queries World_init \<noteq>
     map_queries World_init @
       concat (map (queries_of demo_flags)
         (examined_points (in_offset_window demo_flags (pp_s (path_point (pt 5 20))))
            demo_flags demo_map [pt 5 20]))"
    unfolding examined by (simp add: queries_of_def)
  ultimately show ?thesis using inside examined pnc by simp
qed

theorem scan_window_is_own_arc_length_witness:
  "\<exists>w'. GetNearestJunction demo_flags demo_map (traj [pt 0 0, pt 1 10, pt 5 11]) None World_init =
          Inr (no_junction None, w') \<and>
        map_queries w' = queries_of demo_flags (pt 0 0) @ queries_of demo_flags (pt 1 10)"
proof -
  let ?ps = "[pt 0 0, pt 1 10, pt 5 11]"
  have ne: "trajectory_point (traj ?ps) \<noteq> []" by (simp add: demo_traj)
  have examined: "examined_points (in_window demo_flags) demo_flags demo_map ?ps =
      [pt 0 0, pt 1 10]"
    by (simp add: examined_points_def demo_window demo_pnc demo_plain no_match_def)
  have quiet: "\<forall>q \<in> set (takeWhile (in_window demo_flags) (trajectory_point (traj ?ps))).
      no_match demo_flags demo_map q"
    by (simp add: demo_traj demo_window demo_pnc demo_plain no_match_def)
  from scan_window_is_own_arc_length [OF ne, of demo_flags demo_map None World_init]
  obtain out w' where
    r: "GetNearestJunction demo_flags demo_map (traj ?ps) None World_init = Inr (out, w')"
    and q: "map_queries w' = map_queries World_init @
             concat (map (queries_of demo_flags)
               (examined_points (in_window demo_flags) demo_flags demo_map
                  (trajectory_point (traj ?ps))))"
    and n: "(\<forall>q \<in> set (takeWhile (in_window demo_flags) (trajectory_point (traj ?ps))).
              no_match demo_flags demo_map q) \<longrightarrow> out = no_junction None"
    by blast
  from n quiet have "out = no_junction None" by blast
  moreover from q have "map_queries w' =
      queries_of demo_flags (pt 0 0) @ queries_of demo_flags (pt 1 10)"
    unfolding demo_traj examined by (simp add: World_init_def)
  ultimately show ?thesis using r by blast
qed

section \<open>What the controller reads and writes\<close>

lemma loop_assigns:
  "GetNearestJunction_loop fl hm s0 ps out w = (out', w') \<Longrightarrow>
   out' = out \<or>
   ((out_type out' = Some PNC_JUNCTION \<or> out_type out' = Some JUNCTION) \<and>
    (\<exists>p \<in> set ps. in_window fl p \<and> \<not> no_match fl hm p \<and>
       out_distance out' = pp_s (path_point p) - s0))"
proof (induction ps arbitrary: w)
  case Nil
  then show ?case by simp
next
  case (Cons p ps)
  show ?case
  proof (cases "in_window fl p")
    case False
    with Cons.prems show ?thesis unfolding loop_beyond [OF False] by simp
  next
    case True
    show ?thesis
    proof (cases "ClassifyPNC fl hm p")
      case (Some j)
      then have "\<not> no_match fl hm p" by (simp add: no_match_def)
      with Cons.prems True show ?thesis
        unfolding loop_pnc [OF True Some] by auto
    next
      case None
      show ?thesis
      proof (cases "ClassifyPlain fl hm p")
        case (Some j)
        then have "\<not> no_match fl hm p" by (simp add: no_match_def)
        with Cons.prems True show ?thesis
          unfolding loop_plain [OF True None Some] by (auto split: if_splits)
      next
        case plain: None
        with None have nm: "no_match fl hm p" by (simp add: no_match_def)
        from Cons.prems have "GetNearestJunction_loop fl hm s0 ps out
            (w\<lparr>overlapping_junction_id := [],
               map_queries := map_queries w @ queries_of fl p\<rparr>) = (out', w')"
          unfolding loop_neither [OF True nm] .
        from Cons.IH [OF this] show ?thesis by auto
      qed
    qed
  qed
qed

lemma scan_assigns:
  assumes ne: "trajectory_point t \<noteq> []"
    and scan: "GetNearestJunction fl hm t type0 w = Inr (out, w1)"
  shows "out = no_junction type0 \<or>
   ((out_type out = Some PNC_JUNCTION \<or> out_type out = Some JUNCTION) \<and>
    (\<exists>p \<in> set (trajectory_point t). in_window fl p \<and> \<not> no_match fl hm p \<and>
       out_distance out = pp_s (path_point p) - pp_s (path_point (hd (trajectory_point t)))))"
  using scan unfolding GetNearestJunction_nonempty [OF ne]
  by (intro loop_assigns [of fl hm _ _ _ w out w1]) simp

lemma scan_type_assigned:
  assumes ne: "trajectory_point t \<noteq> []"
    and scan: "GetNearestJunction fl hm t type0 w = Inr (out, w1)"
    and close: "0 \<le> out_distance out"
  shows "out_type out = Some PNC_JUNCTION \<or> out_type out = Some JUNCTION"
  using scan_assigns [OF ne scan] close by (auto simp: no_junction_def)

lemma scan_total:
  "trajectory_point t \<noteq> [] \<Longrightarrow> \<exists>out w1. GetNearestJunction fl hm t type0 w = Inr (out, w1)"
  by (simp add: GetNearestJunction_nonempty del: GetNearestJunction_loop.simps)

lemma Update_not_ready:
  "(case trajectory of None \<Rightarrow> True | Some t \<Rightarrow> trajectory_point t = []) \<Longrightarrow>
   Update fl hm trajectory stories w =
     Inr (stories, w\<lparr>log_lines := log_lines w @ [(ERROR, ''Planning trajectory not ready.'')]\<rparr>)"
  by (cases trajectory) (simp_all add: Update_def write_log_def)

lemma Update_scan:
  assumes ne: "trajectory_point t \<noteq> []"
    and scan: "GetNearestJunction fl hm t None w = Inr (out, w1)"
  shows "Update fl hm (Some t) stories w =
     (if 0 \<le> out_distance out then
        Inr (stories\<lparr>close_to_junction :=
               Some \<lparr>ctj_id = Some (out_id out), ctj_type = out_type out,
                     ctj_distance = Some (out_distance out)\<rparr>\<rparr>,
             if close_to_junction stories = None
             then write_log INFO ''Enter CloseToJunction story'' w1 else w1)
      else if close_to_junction stories = None then Inr (stories, w1)
      else Inr (stories\<lparr>close_to_junction := None\<rparr>,
                write_log INFO ''Exit CloseToJunction story'' w1))"
proof (cases "0 \<le> out_distance out")
  case True
  from scan_type_assigned [OF ne scan True] obtain k where k: "out_type out = Some k" by blast
  have "(mutable_close_to_junction stories)\<lparr>ctj_id := Some (out_id out), ctj_type := Some k,
          ctj_distance := Some (out_distance out)\<rparr> =
        \<lparr>ctj_id = Some (out_id out), ctj_type = Some k, ctj_distance = Some (out_distance out)\<rparr>"
    by (cases "mutable_close_to_junction stories") simp
  with True k ne scan show ?thesis
    by (simp add: Update_def has_close_to_junction_def Let_def)
next
  case False
  with ne scan show ?thesis
    by (simp add: Update_def has_close_to_junction_def clear_close_to_junction_def Let_def)
qed

lemma Update_total: "\<exists>stories1 w1. Update fl hm trajectory stories w = Inr (stories1, w1)"
proof (cases "case trajectory of None \<Rightarrow> True | Some t \<Rightarrow> trajectory_point t = []")
  case True
  from Update_not_ready [OF this] show ?thesis by blast
next
  case False
  then obtain t where t: "trajectory = Some t" and ne: "trajectory_point t \<noteq> []"
    by (auto split: option.splits)
  from scan_total [OF ne] obtain out wa where
    scan: "GetNearestJunction fl hm t None w = Inr (out, wa)" by blast
  show ?thesis unfolding t Update_scan [OF ne scan] by simp
qed

text \<open>
  Claim C7. When no trajectory snapshot is available, or the snapshot has no points,
  \<^verbatim>\<open>Update\<close> returns at once: the stories are returned unchanged, the static id is
  unchanged, no map query is sent (so no scan ran), and one error line is logged.
\<close>

theorem Update_skipped_without_points:
  assumes "case trajectory of None \<Rightarrow> True | Some t \<Rightarrow> trajectory_point t = []"
  shows "\<exists>w'. Update fl hm trajectory stories w = Inr (stories, w') \<and>
           overlapping_junction_id w' = overlapping_junction_id w \<and>
           map_queries w' = map_queries w \<and>
           log_lines w' = log_lines w @ [(ERROR, ''Planning trajectory not ready.'')]"
  unfolding Update_not_ready [OF assms] by simp

theorem Update_skipped_without_points_witness:
  "Update demo_flags demo_map None no_stories World_init =
     Inr (no_stories, World_init\<lparr>log_lines := [(ERROR, ''Planning trajectory not ready.'')]\<rparr>) \<and>
   Update demo_flags demo_map (Some (traj [])) no_stories World_init =
     Inr (no_stories, World_init\<lparr>log_lines := [(ERROR, ''Planning trajectory not ready.'')]\<rparr>)"
proof -
  from Update_skipped_without_points [of None demo_flags demo_map no_stories World_init]
  obtain w' where a: "Update demo_flags demo_map None no_stories World_init = Inr (no_stories, w')"
    and b: "overlapping_junction_id w' = overlapping_junction_id World_init"
      "map_queries w' = map_queries World_init"
      "log_lines w' = log_lines World_init @ [(ERROR, ''Planning trajectory not ready.'')]"
    by auto
  from b have w': "w' = World_init\<lparr>log_lines := [(ERROR, ''Planning trajectory not ready.'')]\<rparr>"
    by (cases w') (simp add: World_init_def)
  from Update_skipped_without_points [of "Some (traj [])" demo_flags demo_map no_stories World_init]
  obtain v' where c: "Update demo_flags demo_map (Some (traj [])) no_stories World_init =
      Inr (no_stories, v')"
    and d: "overlapping_junction_id v' = overlapping_junction_id World_init"
      "map_queries v' = map_queries World_init"
      "log_lines v' = log_lines World_init @ [(ERROR, ''Planning trajectory not ready.'')]"
    by (auto simp: demo_traj)
  from d have v': "v' = World_init\<lparr>log_lines := [(ERROR, ''Planning trajectory not ready.'')]\<rparr>"
    by (cases v') (simp add: World_init_def)
  from a c show ?thesis unfolding w' v' by simp
qed



lemma demo_scan_none:
  assumes "px \<noteq> 5" "px \<noteq> 6" "s1 \<le> 10"
  shows "GetNearestJunction demo_flags demo_map (traj [pt px s1]) None w =
     Inr (no_junction None,
          w\<lparr>overlapping_junction_id := [],
            map_queries := map_queries w @ queries_of demo_flags (pt px s1)\<rparr>)"
proof -
  have "\<forall>q \<in> set [pt px s1]. in_window demo_flags q \<and> no_match demo_flags demo_map q"
    using assms by (simp add: demo_window demo_pnc demo_plain no_match_def)
  from loop_skip [OF this, of _ "[]" "no_junction None" w] show ?thesis
    by (simp del: GetNearestJunction_loop.simps
        add: GetNearestJunction_nonempty demo_traj GetNearestJunction_loop.simps(1))
qed

lemma demo_scan_pnc:
  assumes "px \<noteq> 5" "px \<noteq> 6" "s1 \<le> 10" "s2 \<le> 10"
  shows "GetNearestJunction demo_flags demo_map (traj [pt px s1, pt 5 s2]) None w =
     Inr (\<lparr>out_id = ''pnc1'', out_type = Some PNC_JUNCTION, out_distance = s2 - s1\<rparr>,
          w\<lparr>overlapping_junction_id := ''j1'',
            map_queries := map_queries w @ queries_of demo_flags (pt px s1) @
              queries_of demo_flags (pt 5 s2)\<rparr>)"
proof -
  have pre: "\<forall>q \<in> set [pt px s1]. in_window demo_flags q \<and> no_match demo_flags demo_map q"
    using assms by (simp add: demo_window demo_pnc demo_plain no_match_def)
  have p_in: "in_window demo_flags (pt 5 s2)" using assms by (simp add: demo_window)
  have pnc: "ClassifyPNC demo_flags demo_map (pt 5 s2) = Some ''pnc1''" by (simp add: demo_pnc)
  from loop_reach_pnc [OF pre p_in pnc, of _ "[]" "no_junction None" w] show ?thesis
    by (simp add: GetNearestJunction_nonempty demo_traj demo_s demo_plain no_junction_def
        del: GetNearestJunction_loop.simps)
qed



lemma demo_Update_none:
  assumes "px \<noteq> 5" "px \<noteq> 6" "s1 \<le> 10"
  shows "Update demo_flags demo_map (Some (traj [pt px s1])) stories w =
     (if close_to_junction stories = None
      then Inr (stories,
             w\<lparr>overlapping_junction_id := [],
               map_queries := map_queries w @ queries_of demo_flags (pt px s1)\<rparr>)
      else Inr (stories\<lparr>close_to_junction := None\<rparr>,
             write_log INFO ''Exit CloseToJunction story''
               (w\<lparr>overlapping_junction_id := [],
                  map_queries := map_queries w @ queries_of demo_flags (pt px s1)\<rparr>)))"
proof -
  have ne: "trajectory_point (traj [pt px s1]) \<noteq> []" by (simp add: demo_traj)
  show ?thesis
    unfolding Update_scan [OF ne demo_scan_none [OF assms]] by (simp add: no_junction_def)
qed

lemma demo_Update_pnc:
  assumes "px \<noteq> 5" "px \<noteq> 6" "s1 \<le> 10" "s2 \<le> 10" "s1 \<le> s2"
  shows "Update demo_flags demo_map (Some (traj [pt px s1, pt 5 s2])) stories w =
     Inr (stories\<lparr>close_to_junction :=
            Some \<lparr>ctj_id = Some ''pnc1'', ctj_type = Some PNC_JUNCTION,
                  ctj_distance = Some (s2 - s1)\<rparr>\<rparr>,
          if close_to_junction stories = None
          then write_log INFO ''Enter CloseToJunction story''
                 (w\<lparr>overlapping_junction_id := ''j1'',
                    map_queries := map_queries w @ queries_of demo_flags (pt px s1) @
                      queries_of demo_flags (pt 5 s2)\<rparr>)
          else w\<lparr>overlapping_junction_id := ''j1'',
                 map_queries := map_queries w @ queries_of demo_flags (pt px s1) @
                   queries_of demo_flags (pt 5 s2)\<rparr>)"
proof -
  have ne: "trajectory_point (traj [pt px s1, pt 5 s2]) \<noteq> []" by (simp add: demo_traj)
  show ?thesis
    unfolding Update_scan [OF ne demo_scan_pnc [OF assms(1-4)]] using assms(5) by simp
qed

text \<open>
  Claim C6. With a scan result \<open>out\<close> of the current cycle: when the distance is \<open>\<ge> 0\<close> the
  story is present afterwards with id, type and distance taken from \<open>out\<close>, whatever it held
  before, and "Enter" is logged only if it was absent; when the distance is negative the
  story is cleared and "Exit" logged if it was present, and nothing happens if it was
  absent. On four successive cycles whose scans give the distances \<open>-1, 5, 3, -1\<close> the
  story is absent, present with distance 5 (one "Enter" line), present with distance 3
  (no further line), and absent (one "Exit" line).
\<close>

theorem story_lifecycle:
  assumes ne: "trajectory_point t \<noteq> []"
    and scan: "GetNearestJunction fl hm t None w = Inr (out, w1)"
  shows
    "(0 \<le> out_distance out \<longrightarrow>
        out_type out \<noteq> None \<and>
        Update fl hm (Some t) stories w =
          Inr (stories\<lparr>close_to_junction :=
                 Some \<lparr>ctj_id = Some (out_id out), ctj_type = out_type out,
                       ctj_distance = Some (out_distance out)\<rparr>\<rparr>,
               if close_to_junction stories = None
               then write_log INFO ''Enter CloseToJunction story'' w1 else w1)) \<and>
     (out_distance out < 0 \<longrightarrow>
        Update fl hm (Some t) stories w =
          (if close_to_junction stories = None then Inr (stories, w1)
           else Inr (stories\<lparr>close_to_junction := None\<rparr>,
                     write_log INFO ''Exit CloseToJunction story'' w1))) \<and>
     (\<exists>wa wb wc wd.
        run_cycles demo_flags demo_map [Some (traj [pt 0 0])] no_stories World_init =
          Inr (no_stories, wa) \<and>
        log_lines wa = [] \<and>
        run_cycles demo_flags demo_map [Some (traj [pt 0 0]), Some (traj [pt 0 0, pt 5 5])]
            no_stories World_init =
          Inr (\<lparr>close_to_junction = Some \<lparr>ctj_id = Some ''pnc1'',
                 ctj_type = Some PNC_JUNCTION, ctj_distance = Some 5\<rparr>\<rparr>, wb) \<and>
        log_lines wb = [(INFO, ''Enter CloseToJunction story'')] \<and>
        run_cycles demo_flags demo_map
            [Some (traj [pt 0 0]), Some (traj [pt 0 0, pt 5 5]), Some (traj [pt 2 0, pt 5 3])]
            no_stories World_init =
          Inr (\<lparr>close_to_junction = Some \<lparr>ctj_id = Some ''pnc1'',
                 ctj_type = Some PNC_JUNCTION, ctj_distance = Some 3\<rparr>\<rparr>, wc) \<and>
        log_lines wc = [(INFO, ''Enter CloseToJunction story'')] \<and>
        run_cycles demo_flags demo_map
            [Some (traj [pt 0 0]), Some (traj [pt 0 0, pt 5 5]), Some (traj [pt 2 0, pt 5 3]),
             Some (traj [pt 8 0])]
            no_stories World_init =
          Inr (no_stories, wd) \<and>
        log_lines wd = [(INFO, ''Enter CloseToJunction story''),
                        (INFO, ''Exit CloseToJunction story'')])"
proof -
  have enter: "0 \<le> out_distance out \<longrightarrow>
        out_type out \<noteq> None \<and>
        Update fl hm (Some t) stories w =
          Inr (stories\<lparr>close_to_junction :=
                 Some \<lparr>ctj_id = Some (out_id out), ctj_type = out_type out,
                       ctj_distance = Some (out_distance out)\<rparr>\<rparr>,
               if close_to_junction stories = None
               then write_log INFO ''Enter CloseToJunction story'' w1 else w1)"
    using scan_type_assigned [OF ne scan] unfolding Update_scan [OF ne scan] by auto
  have leave: "out_distance out < 0 \<longrightarrow>
        Update fl hm (Some t) stories w =
          (if close_to_junction stories = None then Inr (stories, w1)
           else Inr (stories\<lparr>close_to_junction := None\<rparr>,
                     write_log INFO ''Exit CloseToJunction story'' w1))"
    unfolding Update_scan [OF ne scan] by simp
  let ?s5 = "\<lparr>close_to_junction = Some \<lparr>ctj_id = Some ''pnc1'',
                 ctj_type = Some PNC_JUNCTION, ctj_distance = Some 5\<rparr>\<rparr>"
  let ?s3 = "\<lparr>close_to_junction = Some \<lparr>ctj_id = Some ''pnc1'',
                 ctj_type = Some PNC_JUNCTION, ctj_distance = Some 3\<rparr>\<rparr>"
  obtain wa where ua: "Update demo_flags demo_map (Some (traj [pt 0 0])) no_stories World_init =
      Inr (no_stories, wa)" and la: "log_lines wa = []"
    by (simp add: demo_Update_none no_stories_def World_init_def)
  obtain wb where ub: "Update demo_flags demo_map (Some (traj [pt 0 0, pt 5 5])) no_stories wa =
      Inr (?s5, wb)" and lb: "log_lines wb = [(INFO, ''Enter CloseToJunction story'')]"
    using la by (simp add: demo_Update_pnc no_stories_def write_log_def)
  obtain wc where uc: "Update demo_flags demo_map (Some (traj [pt 2 0, pt 5 3])) ?s5 wb =
      Inr (?s3, wc)" and lc: "log_lines wc = [(INFO, ''Enter CloseToJunction story'')]"
    using lb by (simp add: demo_Update_pnc)
  obtain wd where ud: "Update demo_flags demo_map (Some (traj [pt 8 0])) ?s3 wc =
      Inr (no_stories, wd)"
    and ld: "log_lines wd = [(INFO, ''Enter CloseToJunction story''),
                        (INFO, ''Exit CloseToJunction story'')]"
    using lc by (simp add: demo_Update_none no_stories_def write_log_def)
  have run: "\<exists>wa wb wc wd.
        run_cycles demo_flags demo_map [Some (traj [pt 0 0])] no_stories World_init =
          Inr (no_stories, wa) \<and>
        log_lines wa = [] \<and>
        run_cycles demo_flags demo_map [Some (traj [pt 0 0]), Some (traj [pt 0 0, pt 5 5])]
            no_stories World_init =
          Inr (?s5, wb) \<and>
        log_lines wb = [(INFO, ''Enter CloseToJunction story'')] \<and>
        run_cycles demo_flags demo_map
            [Some (traj [pt 0 0]), Some (traj [pt 0 0, pt 5 5]), Some (traj [pt 2 0, pt 5 3])]
            no_stories World_init =
          Inr (?s3, wc) \<and>
        log_lines wc = [(INFO, ''Enter CloseToJunction story'')] \<and>
        run_cycles demo_flags demo_map
            [Some (traj [pt 0 0]), Some (traj [pt 0 0, pt 5 5]), Some (traj [pt 2 0, pt 5 3]),
             Some (traj [pt 8 0])]
            no_stories World_init =
          Inr (no_stories, wd) \<and>
        log_lines wd = [(INFO, ''Enter CloseToJunction story''),
                        (INFO, ''Exit CloseToJunction story'')]"
    apply (rule exI [of _ wa], rule exI [of _ wb], rule exI [of _ wc], rule exI [of _ wd])
    apply (simp add: ua ub uc ud la lb lc ld)
    done
  from enter leave run show ?thesis by blast
qed

theorem story_lifecycle_witness:
  "Update demo_flags demo_map (Some (traj [pt 0 0, pt 5 5])) no_stories World_init =
     Inr (\<lparr>close_to_junction = Some \<lparr>ctj_id = Some ''pnc1'',
            ctj_type = Some PNC_JUNCTION, ctj_distance = Some 5\<rparr>\<rparr>,
          write_log INFO ''Enter CloseToJunction story''
            (World_init\<lparr>overlapping_junction_id := ''j1'',
               map_queries := queries_of demo_flags (pt 0 0) @ queries_of demo_flags (pt 5 5)\<rparr>))"
proof -
  let ?t = "traj [pt 0 0, pt 5 5]"
  let ?out = "\<lparr>out_id = ''pnc1'', out_type = Some PNC_JUNCTION, out_distance = 5 - 0\<rparr>"
  let ?w1 = "World_init\<lparr>overlapping_junction_id := ''j1'',
            map_queries := map_queries World_init @ queries_of demo_flags (pt 0 0) @
              queries_of demo_flags (pt 5 5)\<rparr>"
  have ne: "trajectory_point ?t \<noteq> []" by (simp add: demo_traj)
  have scan: "GetNearestJunction demo_flags demo_map ?t None World_init = Inr (?out, ?w1)"
    by (rule demo_scan_pnc) simp_all
  have close: "0 \<le> out_distance ?out" by simp
  from story_lifecycle [OF ne scan, of no_stories, THEN conjunct1] close
  have "Update demo_flags demo_map (Some ?t) no_stories World_init =
          Inr (no_stories\<lparr>close_to_junction :=
                 Some \<lparr>ctj_id = Some (out_id ?out), ctj_type = out_type ?out,
                       ctj_distance = Some (out_distance ?out)\<rparr>\<rparr>,
               if close_to_junction no_stories = None
               then write_log INFO ''Enter CloseToJunction story'' ?w1 else ?w1)"
    by blast
  then show ?thesis by (simp add: no_stories_def World_init_def)
qed

subsection \<open>Repeating a cycle\<close>

lemma loop_dep:
  "overlapping_junction_id w = overlapping_junction_id v \<Longrightarrow>
   fst (GetNearestJunction_loop fl hm s0 ps out w) =
     fst (GetNearestJunction_loop fl hm s0 ps out v) \<and>
   overlapping_junction_id (snd (GetNearestJunction_loop fl hm s0 ps out w)) =
     overlapping_junction_id (snd (GetNearestJunction_loop fl hm s0 ps out v))"
proof (induction ps arbitrary: w v)
  case Nil
  then show ?case by simp
next
  case (Cons p ps)
  show ?case
  proof (cases "in_window fl p")
    case False
    with Cons.prems show ?thesis unfolding loop_beyond [OF False] by simp
  next
    case True
    show ?thesis
    proof (cases "ClassifyPNC fl hm p")
      case (Some j)
      show ?thesis unfolding loop_pnc [OF True Some] by simp
    next
      case None
      show ?thesis
      proof (cases "ClassifyPlain fl hm p")
        case (Some j)
        with Cons.prems show ?thesis unfolding loop_plain [OF True None Some] by simp
      next
        case plain: None
        with None have nm: "no_match fl hm p" by (simp add: no_match_def)
        show ?thesis unfolding loop_neither [OF True nm]
          by (rule Cons.IH) simp
      qed
    qed
  qed
qed

lemma loop_idem:
  assumes "overlapping_junction_id v =
      overlapping_junction_id (snd (GetNearestJunction_loop fl hm s0 ps out w))"
  shows "fst (GetNearestJunction_loop fl hm s0 ps out v) =
     fst (GetNearestJunction_loop fl hm s0 ps out w) \<and>
   overlapping_junction_id (snd (GetNearestJunction_loop fl hm s0 ps out v)) =
     overlapping_junction_id (snd (GetNearestJunction_loop fl hm s0 ps out w))"
proof (cases ps)
  case Nil
  with assms show ?thesis by simp
next
  case (Cons p rest)
  show ?thesis
  proof (cases "in_window fl p")
    case False
    with assms show ?thesis unfolding Cons loop_beyond [OF False] by simp
  next
    case True
    show ?thesis
    proof (cases "ClassifyPNC fl hm p")
      case (Some j)
      show ?thesis unfolding Cons loop_pnc [OF True Some] by simp
    next
      case None
      show ?thesis
      proof (cases "ClassifyPlain fl hm p")
        case (Some j)
        with assms show ?thesis unfolding Cons loop_plain [OF True None Some] by simp
      next
        case plain: None
        with None have nm: "no_match fl hm p" by (simp add: no_match_def)
        show ?thesis unfolding Cons loop_neither [OF True nm]
          by (rule loop_dep) simp
      qed
    qed
  qed
qed

lemma ov_write_log [simp]:
  "overlapping_junction_id (write_log sev msg w) = overlapping_junction_id w"
  by (simp add: write_log_def)

lemma Update_again:
  assumes first: "Update fl hm trajectory stories w = Inr (stories1, w1)"
    and same: "overlapping_junction_id v = overlapping_junction_id w1"
  shows "\<exists>v1. Update fl hm trajectory stories1 v = Inr (stories1, v1) \<and>
           overlapping_junction_id v1 = overlapping_junction_id w1"
proof (cases "case trajectory of None \<Rightarrow> True | Some t \<Rightarrow> trajectory_point t = []")
  case True
  from first same show ?thesis unfolding Update_not_ready [OF True] by auto
next
  case False
  then obtain t where t: "trajectory = Some t" and ne: "trajectory_point t \<noteq> []"
    by (auto split: option.splits)
  let ?s0 = "pp_s (path_point (hd (trajectory_point t)))"
  let ?run = "\<lambda>u. GetNearestJunction_loop fl hm ?s0 (trajectory_point t) (no_junction None) u"
  have scan_w: "GetNearestJunction fl hm t None w = Inr (fst (?run w), snd (?run w))"
    unfolding GetNearestJunction_nonempty [OF ne] by simp
  have scan_v: "GetNearestJunction fl hm t None v = Inr (fst (?run v), snd (?run v))"
    unfolding GetNearestJunction_nonempty [OF ne] by simp
  from first have w1: "overlapping_junction_id w1 = overlapping_junction_id (snd (?run w))"
    unfolding t Update_scan [OF ne scan_w] by (auto split: if_splits)
  from loop_idem [of v fl hm ?s0 "trajectory_point t" "no_junction None" w] same w1
  have out: "fst (?run v) = fst (?run w)"
    and ov: "overlapping_junction_id (snd (?run v)) = overlapping_junction_id w1"
    by simp_all
  from first show ?thesis
    unfolding t Update_scan [OF ne scan_w] Update_scan [OF ne scan_v] out
    using ov by (auto split: if_splits)
qed

lemma run_replicate:
  assumes first: "Update fl hm trajectory stories w = Inr (stories1, w1)"
  shows "overlapping_junction_id v = overlapping_junction_id w1 \<Longrightarrow>
     \<exists>vn. run_cycles fl hm (replicate n trajectory) stories1 v = Inr (stories1, vn) \<and>
          overlapping_junction_id vn = overlapping_junction_id w1"
proof (induction n arbitrary: v)
  case 0
  then show ?case by simp
next
  case (Suc n)
  from Update_again [OF first Suc.prems] obtain v1 where
    u: "Update fl hm trajectory stories1 v = Inr (stories1, v1)"
    and ov: "overlapping_junction_id v1 = overlapping_junction_id w1" by blast
  from Suc.IH [OF ov] u show ?case by simp
qed

text \<open>
  Claim C8. For a fixed trajectory snapshot and a fixed map, the stories after the first
  \<^verbatim>\<open>Update\<close> are the stories after every later one: \<open>n + 1\<close> calls in a row, each on the
  stories and the static id the previous call left, end with the stories of the first call.
\<close>

theorem Update_idempotent:
  "\<exists>stories1 w1. Update fl hm trajectory stories w = Inr (stories1, w1) \<and>
     (\<forall>n. \<exists>wn. run_cycles fl hm (replicate (Suc n) trajectory) stories w = Inr (stories1, wn))"
proof -
  from Update_total obtain stories1 w1 where
    first: "Update fl hm trajectory stories w = Inr (stories1, w1)" by blast
  have "\<exists>wn. run_cycles fl hm (replicate (Suc n) trajectory) stories w = Inr (stories1, wn)" for n
    using run_replicate [OF first refl, of n] first by auto
  with first show ?thesis by blast
qed

theorem Update_idempotent_witness:
  "\<exists>w1 w3. Update demo_flags demo_map (Some (traj [pt 6 0])) no_stories World_init =
       Inr (\<lparr>close_to_junction = Some \<lparr>ctj_id = Some ''j1'',
              ctj_type = Some JUNCTION, ctj_distance = Some 0\<rparr>\<rparr>, w1) \<and>
     run_cycles demo_flags demo_map (replicate 3 (Some (traj [pt 6 0]))) no_stories World_init =
       Inr (\<lparr>close_to_junction = Some \<lparr>ctj_id = Some ''j1'',
              ctj_type = Some JUNCTION, ctj_distance = Some 0\<rparr>\<rparr>, w3)"
proof -
  let ?t = "traj [pt 6 0]"
  let ?story = "\<lparr>close_to_junction = Some \<lparr>ctj_id = Some ''j1'',
              ctj_type = Some JUNCTION, ctj_distance = Some 0\<rparr>\<rparr>"
  have ne: "trajectory_point ?t \<noteq> []" by (simp add: demo_traj)
  have "GetNearestJunction_loop demo_flags demo_map 0 ([] @ pt 6 0 # []) (no_junction None) World_init =
      (\<lparr>out_id = ''j1'', out_type = Some JUNCTION, out_distance = 0\<rparr>,
       World_init\<lparr>map_queries := queries_of demo_flags (pt 6 0)\<rparr>)"
    by (subst loop_reach_plain [where j = "''j1''"])
      (simp_all add: demo_window demo_pnc demo_plain demo_s World_init_def no_junction_def)
  then have scan: "GetNearestJunction demo_flags demo_map ?t None World_init =
      Inr (\<lparr>out_id = ''j1'', out_type = Some JUNCTION, out_distance = 0\<rparr>,
           World_init\<lparr>map_queries := queries_of demo_flags (pt 6 0)\<rparr>)"
    by (simp add: GetNearestJunction_nonempty demo_traj demo_s del: GetNearestJunction_loop.simps)
  have first: "Update demo_flags demo_map (Some ?t) no_stories World_init =
      Inr (?story, write_log INFO ''Enter CloseToJunction story''
             (World_init\<lparr>map_queries := queries_of demo_flags (pt 6 0)\<rparr>))"
    unfolding Update_scan [OF ne scan] by (simp add: no_stories_def)
  from Update_idempotent [of demo_flags demo_map "Some ?t" no_stories World_init]
  obtain stories1 w1 where
    u: "Update demo_flags demo_map (Some ?t) no_stories World_init = Inr (stories1, w1)"
    and r: "\<forall>n. \<exists>wn. run_cycles demo_flags demo_map (replicate (Suc n) (Some ?t))
        no_stories World_init = Inr (stories1, wn)"
    by blast
  from u first have s1: "stories1 = ?story" by simp
  from r obtain w3 where "run_cycles demo_flags demo_map (replicate (Suc 2) (Some ?t))
        no_stories World_init = Inr (stories1, w3)" by blast
  then have "run_cycles demo_flags demo_map (replicate 3 (Some ?t))
        no_stories World_init = Inr (?story, w3)"
    unfolding s1 by (simp only: eval_nat_numeral)
  with first show ?thesis by blast
qed

end
